theory Spec2Isabelle
  imports Complex_Main "HOL-Library.Char_ord" "HOL-Library.List_Lexorder"
begin

section \<open>BookScout: the catalog store and the recommendation engine\<close>

text \<open>
  A shallow embedding of \<^verbatim>\<open>app.py\<close> (\<^verbatim>\<open>get_cached_book\<close>, \<^verbatim>\<open>save_to_cache\<close>) and of
  \<^verbatim>\<open>ml_engine.py\<close> (\<^verbatim>\<open>load_and_vectorize\<close>, \<^verbatim>\<open>get_similar_books\<close>).

  Modelling decisions, each visible in the definitions below:
  \<^item> Strings are byte strings and \<^verbatim>\<open>str.lower\<close>, \<^verbatim>\<open>str.strip\<close> are the ASCII
    fragments of Python's functions (letters A-Z; the ASCII white space of \<^verbatim>\<open>str.isspace\<close>).
  \<^item> The cache file \<^verbatim>\<open>cache/book_data.csv\<close> is an optional list of rows: \<open>None\<close> when
    the file does not exist, otherwise the rows after the header, in file order. The
    CSV quoting is not modelled: a row is read back as it was written.
  \<^item> A pandas cell is \<open>NaN\<close> or a string; columns keep the \<^verbatim>\<open>object\<close> dtype.
  \<^item> What pandas, scikit-learn and numpy compute (which strings \<^verbatim>\<open>read_csv\<close> takes for
    missing values, the TF-IDF matrix, the cosine, the order \<^verbatim>\<open>argsort\<close> gives to equal
    keys, \<^verbatim>\<open>round\<close> on a float) is not code of this repository: these are the fields of
    a record of parameters, and the theorems hold for every value of it.
  \<^item> Every exception the modelled code can raise is a value \<open>Inl e\<close>.
\<close>

subsection \<open>Python strings\<close>

definition lower_char :: "char \<Rightarrow> char" where
  "lower_char c =
     (case map_of (zip ''ABCDEFGHIJKLMNOPQRSTUVWXYZ'' ''abcdefghijklmnopqrstuvwxyz'') c of
        Some d \<Rightarrow> d
      | None \<Rightarrow> c)"

definition lower :: "string \<Rightarrow> string" where
  "lower s = map lower_char s"

definition isspace :: "char \<Rightarrow> bool" where
  "isspace c \<longleftrightarrow>
     c \<in> set [CHR '' '', CHR 0x09, CHR 0x0A, CHR 0x0B, CHR 0x0C, CHR 0x0D,
              CHR 0x1C, CHR 0x1D, CHR 0x1E, CHR 0x1F]"

definition strip :: "string \<Rightarrow> string" where
  "strip s = rev (dropWhile isspace (rev (dropWhile isspace s)))"

text \<open>
  \<^verbatim>\<open>s.split(sep)\<close> for a separator of one character and of two different characters
  (the two separators the code uses, \<^verbatim>\<open>','\<close> and \<^verbatim>\<open>', '\<close>): the pieces between the
  occurrences of the separator, scanned from the left; the empty string gives \<^verbatim>\<open>['']\<close>.
\<close>

definition push :: "char \<Rightarrow> string list \<Rightarrow> string list" where
  "push c ws = (case ws of [] \<Rightarrow> [[c]] | w # ws' \<Rightarrow> (c # w) # ws')"

fun split1 :: "char \<Rightarrow> string \<Rightarrow> string list" where
  "split1 d [] = [[]]"
| "split1 d (c # cs) = (if c = d then [] # split1 d cs else push c (split1 d cs))"

fun split2 :: "char \<Rightarrow> char \<Rightarrow> string \<Rightarrow> string list" where
  "split2 d e [] = [[]]"
| "split2 d e [c] = [[c]]"
| "split2 d e (c # c' # cs) =
     (if c = d \<and> c' = e then [] # split2 d e cs else push c (split2 d e (c' # cs)))"

subsection \<open>Records of the catalog\<close>

text \<open>
  One entry of the catalog, with the six columns of the CSV file. With \<open>'c = string\<close>
  it is the dict handed to \<^verbatim>\<open>save_to_cache\<close> and the row \<^verbatim>\<open>csv.DictReader\<close> yields; with
  \<open>'c = cell\<close> it is a row of the pandas frame.
\<close>

record 'c entry =
  title :: 'c
  author :: 'c
  description :: 'c
  clean_description :: 'c
  categories :: 'c
  rating :: 'c

type_synonym book = "string entry"

text \<open>The cache file: \<open>None\<close> when \<^verbatim>\<open>os.path.exists(CACHE_FILE)\<close> is false.\<close>

type_synonym cache_file = "book list option"

subsection \<open>\<^verbatim>\<open>app.py\<close>: the catalog store\<close>

definition get_cached_book :: "string \<Rightarrow> cache_file \<Rightarrow> book option" where
  "get_cached_book t f =
     (case f of
        None \<Rightarrow> None
      | Some rows \<Rightarrow> find (\<lambda>row. lower (strip (title row)) = lower (strip t)) rows)"

definition save_to_cache :: "book \<Rightarrow> cache_file \<Rightarrow> cache_file" where
  "save_to_cache b f =
     (let existing = (case f of None \<Rightarrow> {} | Some rows \<Rightarrow> set (map (\<lambda>row. lower (title row)) rows))
      in if lower (title b) \<in> existing then f
         else Some ((case f of None \<Rightarrow> [] | Some rows \<Rightarrow> rows) @ [b]))"

text \<open>A sequence of \<^verbatim>\<open>save_to_cache\<close> calls, the first book of the list first.\<close>

definition save_all :: "book list \<Rightarrow> cache_file \<Rightarrow> cache_file" where
  "save_all bs f = fold save_to_cache bs f"

definition rows_of :: "cache_file \<Rightarrow> book list" where
  "rows_of f = (case f of None \<Rightarrow> [] | Some rows \<Rightarrow> rows)"

definition mk_book :: "string \<Rightarrow> string \<Rightarrow> string \<Rightarrow> book" where
  "mk_book t d c =
     \<lparr>title = t, author = ''anon'', description = d, clean_description = d,
      categories = c, rating = ''N/A''\<rparr>"

subsection \<open>pandas cells and the parameters standing for the libraries\<close>

datatype cell = NaN | Str string

datatype py_error =
  FileNotFoundError | ValueError | TypeError | KeyError | IndexError | AttributeError

text \<open>
  The library functions the engine calls, as parameters:
  \<^item> \<open>isna\<close>: the strings \<^verbatim>\<open>pd.read_csv\<close> reads as a missing value (the empty field is one);
  \<^item> \<open>tfidf_fit_transform\<close>: \<^verbatim>\<open>TfidfVectorizer(...).fit_transform\<close> on the column of
    combined texts, one row of weights for each text, or the exception it raises (with
    \<^verbatim>\<open>min_df=2, max_df=0.8\<close> it raises \<^verbatim>\<open>ValueError\<close> when no term is left);
  \<^item> \<open>cosine\<close>: the cosine of two rows, as \<^verbatim>\<open>cosine_similarity\<close> computes it in floating point;
  \<^item> \<open>argsort\<close>: \<^verbatim>\<open>ndarray.argsort()\<close> with numpy's default sorting kind;
  \<^item> \<open>round2\<close>: \<^verbatim>\<open>round(float(x), 2)\<close>.
\<close>

record lib =
  isna :: "string \<Rightarrow> bool"
  tfidf_fit_transform :: "cell list \<Rightarrow> py_error + real list list"
  cosine :: "real list \<Rightarrow> real list \<Rightarrow> real"
  argsort :: "real list \<Rightarrow> nat list"
  round2 :: "real \<Rightarrow> real"

text \<open>
  What numpy documents of \<^verbatim>\<open>argsort\<close>: the result holds every index of the array once
  and reads the array in ascending order. The default kind is not stable: the order of
  the indices of equal values is left open.
\<close>

definition argsort_ok :: "(real list \<Rightarrow> nat list) \<Rightarrow> bool" where
  "argsort_ok f \<longleftrightarrow>
     (\<forall>xs. distinct (f xs) \<and> set (f xs) = {0..<length xs} \<and> sorted (map (\<lambda>i. xs ! i) (f xs)))"

type_synonym frame = "cell entry list"

definition bind_err :: "'e + 'a \<Rightarrow> ('a \<Rightarrow> 'e + 'b) \<Rightarrow> 'e + 'b" where
  "bind_err m k = (case m of Inl e \<Rightarrow> Inl e | Inr x \<Rightarrow> k x)"

definition to_cell :: "lib \<Rightarrow> string \<Rightarrow> cell" where
  "to_cell L s = (if isna L s then NaN else Str s)"

definition read_row :: "lib \<Rightarrow> book \<Rightarrow> cell entry" where
  "read_row L b =
     \<lparr>title = to_cell L (title b), author = to_cell L (author b),
      description = to_cell L (description b),
      clean_description = to_cell L (clean_description b),
      categories = to_cell L (categories b), rating = to_cell L (rating b)\<rparr>"

definition read_csv :: "lib \<Rightarrow> cache_file \<Rightarrow> py_error + frame" where
  "read_csv L f =
     (case f of
        None \<Rightarrow> Inl FileNotFoundError
      | Some rows \<Rightarrow> Inr (map (read_row L) rows))"

text \<open>The \<^verbatim>\<open>.str\<close> methods and the operators of a column, on one cell: \<open>NaN\<close> stays \<open>NaN\<close>.\<close>

fun notnull :: "cell \<Rightarrow> bool" where
  "notnull NaN = False"
| "notnull (Str s) = True"

fun str_strip :: "cell \<Rightarrow> cell" where
  "str_strip NaN = NaN"
| "str_strip (Str s) = Str (strip s)"

fun str_lower :: "cell \<Rightarrow> cell" where
  "str_lower NaN = NaN"
| "str_lower (Str s) = Str (lower s)"

fun fillna :: "string \<Rightarrow> cell \<Rightarrow> cell" where
  "fillna v NaN = Str v"
| "fillna v (Str s) = Str s"

fun str_add :: "cell \<Rightarrow> cell \<Rightarrow> cell" where
  "str_add (Str a) (Str b) = Str (a @ b)"
| "str_add _ _ = NaN"

text \<open>\<^verbatim>\<open>.str.split(', ')\<close>: \<open>None\<close> is the cell that stays \<open>NaN\<close>.\<close>

fun str_split :: "cell \<Rightarrow> string list option" where
  "str_split NaN = None"
| "str_split (Str s) = Some (split2 (CHR '','') (CHR '' '') s)"

subsection \<open>\<^verbatim>\<open>ml_engine.py\<close>: the feature builder\<close>

text \<open>
  \<^verbatim>\<open>MultiLabelBinarizer().fit_transform\<close>: the classes are the sorted distinct labels of
  all rows, and a row has 1 in the columns of its own labels. A row that is not a
  list (a \<open>NaN\<close>) cannot be iterated.
\<close>

definition mlb_classes :: "string list list \<Rightarrow> string list" where
  "mlb_classes ys = sort (remdups (concat ys))"

definition mlb_fit_transform :: "string list option list \<Rightarrow> py_error + real list list" where
  "mlb_fit_transform ys =
     (if None \<in> set ys then Inl TypeError
      else Inr (map (\<lambda>y. map (\<lambda>c. if c \<in> set (the y) then 1 else 0) (mlb_classes (map the ys))) ys))"

text \<open>\<^verbatim>\<open>scipy.sparse.hstack\<close> of two blocks: the rows side by side.\<close>

definition hstack :: "real list list \<Rightarrow> real list list \<Rightarrow> py_error + real list list" where
  "hstack a b = (if length a = length b then Inr (map2 (@) a b) else Inl ValueError)"

definition usable :: "cell \<Rightarrow> bool" where
  "usable c \<longleftrightarrow> notnull c \<and> str_strip c \<noteq> Str ''''"

definition combined_text :: "frame \<Rightarrow> cell list" where
  "combined_text df =
     map (\<lambda>r. str_add (str_add (clean_description r) (Str '' '')) (str_lower (categories r))) df"

definition cat_split :: "frame \<Rightarrow> string list option list" where
  "cat_split df = map (\<lambda>r. str_split (str_lower (categories r))) df"

text \<open>
  The frame returned is the filtered, re-indexed one with the \<^verbatim>\<open>categories\<close> column
  filled; its added column \<^verbatim>\<open>combined_text\<close>, which nothing reads afterwards, is kept
  apart in \<open>combined_text\<close>.
\<close>

definition load_and_vectorize :: "lib \<Rightarrow> cache_file \<Rightarrow> py_error + (frame \<times> real list list)" where
  "load_and_vectorize L f =
     bind_err (read_csv L f) (\<lambda>df0.
       let df1 = filter (\<lambda>r. usable (clean_description r)) df0;
           df = map (\<lambda>r. r\<lparr>categories := fillna '''' (categories r)\<rparr>) df1
       in bind_err (tfidf_fit_transform L (combined_text df)) (\<lambda>tfidf_matrix.
          bind_err (mlb_fit_transform (cat_split df)) (\<lambda>genre_matrix.
          bind_err (hstack tfidf_matrix (map (map (\<lambda>x. x * (1 / 2))) genre_matrix)) (\<lambda>combined_matrix.
          Inr (df, combined_matrix)))))"

subsection \<open>\<^verbatim>\<open>ml_engine.py\<close>: the ranker\<close>

record scored =
  s_title :: cell
  s_author :: cell
  s_categories :: cell
  s_rating :: cell
  s_clean_description :: cell
  similarity :: real

definition matches :: "frame \<Rightarrow> string \<Rightarrow> nat list" where
  "matches df t = filter (\<lambda>i. str_lower (title (df ! i)) = Str (lower t)) [0..<length df]"

definition book_cats :: "string \<Rightarrow> string list" where
  "book_cats s = map (\<lambda>g. lower (strip g)) (split1 (CHR '','') s)"

text \<open>
  The test of lines 70 to 73: \<open>Inr True\<close> when the row is skipped. \<^verbatim>\<open>filter_genres\<close> is a
  list; the default \<^verbatim>\<open>None\<close> is as false as the empty list and is modelled by it.
\<close>

definition filtered_out :: "string list \<Rightarrow> cell \<Rightarrow> py_error + bool" where
  "filtered_out filter_genres c =
     (if filter_genres \<noteq> [] then
        (case c of
           NaN \<Rightarrow> Inl AttributeError
         | Str s \<Rightarrow> Inr (\<not> list_ex (\<lambda>fg. lower fg \<in> set (book_cats s)) filter_genres))
      else Inr False)"

definition make_result :: "lib \<Rightarrow> frame \<Rightarrow> real list \<Rightarrow> nat \<Rightarrow> scored" where
  "make_result L df sims i =
     \<lparr>s_title = title (df ! i), s_author = author (df ! i), s_categories = categories (df ! i),
      s_rating = rating (df ! i), s_clean_description = clean_description (df ! i),
      similarity = round2 L (sims ! i)\<rparr>"

text \<open>
  The loop of lines 66 to 85 over the sorted indices, with the list of results so far.
  \<^verbatim>\<open>df.at[i, ...]\<close> raises \<^verbatim>\<open>KeyError\<close> and \<^verbatim>\<open>sims[i]\<close> raises \<^verbatim>\<open>IndexError\<close> on an index that
  is not there.
\<close>

fun collect ::
  "lib \<Rightarrow> frame \<Rightarrow> real list \<Rightarrow> nat \<Rightarrow> string list \<Rightarrow> int \<Rightarrow> nat list \<Rightarrow> scored list
    \<Rightarrow> py_error + scored list" where
  "collect L df sims idx filter_genres top_n [] results = Inr results"
| "collect L df sims idx filter_genres top_n (i # is) results =
     (if i = idx then collect L df sims idx filter_genres top_n is results
      else if length df \<le> i then Inl KeyError
      else
        (case filtered_out filter_genres (categories (df ! i)) of
           Inl e \<Rightarrow> Inl e
         | Inr True \<Rightarrow> collect L df sims idx filter_genres top_n is results
         | Inr False \<Rightarrow>
             if length sims \<le> i then Inl IndexError
             else
               let results' = results @ [make_result L df sims i]
               in if top_n \<le> int (length results') then Inr results'
                  else collect L df sims idx filter_genres top_n is results'))"

definition similarities :: "lib \<Rightarrow> real list list \<Rightarrow> nat \<Rightarrow> real list" where
  "similarities L m idx = map (cosine L (m ! idx)) m"

definition sorted_indices :: "lib \<Rightarrow> real list \<Rightarrow> nat list" where
  "sorted_indices L sims = rev (argsort L sims)"

definition not_found_message :: "string \<Rightarrow> string" where
  "not_found_message t = ''Title '' @ [CHR 0x27] @ t @ [CHR 0x27] @ '' not found in cache.''"

text \<open>
  The result is the pair of the lines printed and the list returned. Arguments:
  \<^verbatim>\<open>title\<close>, \<^verbatim>\<open>filter_genres\<close>, \<^verbatim>\<open>top_n\<close> and the state of the file at \<^verbatim>\<open>csv_path\<close>.
\<close>

definition get_similar_books ::
  "lib \<Rightarrow> string \<Rightarrow> string list \<Rightarrow> int \<Rightarrow> cache_file \<Rightarrow> py_error + (string list \<times> scored list)" where
  "get_similar_books L t filter_genres top_n f =
     bind_err (load_and_vectorize L f) (\<lambda>(df, combined_matrix).
       if matches df t = [] then Inr ([not_found_message t], [])
       else
         let idx = hd (matches df t);
             sims = similarities L combined_matrix idx
         in bind_err (collect L df sims idx filter_genres top_n (sorted_indices L sims) [])
              (\<lambda>results. Inr ([], results)))"

text \<open>What the caller of \<^verbatim>\<open>get_similar_books\<close> receives: the list, or the exception.\<close>

definition returned :: "py_error + (string list \<times> scored list) \<Rightarrow> py_error + scored list" where
  "returned r = (case r of Inl e \<Rightarrow> Inl e | Inr (out, results) \<Rightarrow> Inr results)"

text \<open>The rows the loop appends, had it no bound: not the seed, not filtered out.\<close>

definition keep :: "frame \<Rightarrow> nat \<Rightarrow> string list \<Rightarrow> nat \<Rightarrow> bool" where
  "keep df idx filter_genres i \<longleftrightarrow>
     i \<noteq> idx \<and> filtered_out filter_genres (categories (df ! i)) = Inr False"

subsection \<open>One value of the parameters, for running the model\<close>

text \<open>
  The missing-value strings are those of pandas' documentation. The text channel is
  empty, and fitting fails below three texts, where \<^verbatim>\<open>max_df=0.8\<close> allows fewer documents
  than \<^verbatim>\<open>min_df=2\<close> asks for. The similarity is the square of the cosine, which is rational
  and orders vectors without negative entries as the cosine does. The argsort is the
  stable one (insertion sort, as numpy runs on short arrays).
\<close>

definition pandas_na_values :: "string list" where
  "pandas_na_values =
     ['''', ''#N/A'', ''#N/A N/A'', ''#NA'', ''-1.#IND'', ''-1.#QNAN'', ''-NaN'', ''-nan'',
      ''1.#IND'', ''1.#QNAN'', ''<NA>'', ''N/A'', ''NA'', ''NULL'', ''NaN'', ''None'', ''n/a'',
      ''nan'', ''null'']"

definition dot :: "real list \<Rightarrow> real list \<Rightarrow> real" where
  "dot a b = sum_list (map2 (*) a b)"

definition cosine_squared :: "real list \<Rightarrow> real list \<Rightarrow> real" where
  "cosine_squared a b =
     (if dot a a = 0 \<or> dot b b = 0 then 0 else dot a b * dot a b / (dot a a * dot b b))"

definition argsort_stable :: "real list \<Rightarrow> nat list" where
  "argsort_stable xs = map snd (sort_key fst (zip xs [0..<length xs]))"

definition lib0 :: lib where
  "lib0 =
     \<lparr>isna = (\<lambda>s. s \<in> set pandas_na_values),
      tfidf_fit_transform = (\<lambda>docs. if length docs < 3 then Inl ValueError else Inr (map (\<lambda>d. []) docs)),
      cosine = cosine_squared,
      argsort = argsort_stable,
      round2 = (\<lambda>x. of_int (round (x * 100)) / 100)\<rparr>"

subsection \<open>Notions the statements use\<close>

text \<open>
  The row \<^verbatim>\<open>get_similar_books\<close> takes for the seed (\<^verbatim>\<open>matches[0]\<close>), the similarities
  to it, and the candidates in the order the loop visits them.
\<close>

definition seed_row :: "lib \<Rightarrow> string \<Rightarrow> cache_file \<Rightarrow> cell entry option" where
  "seed_row L t f =
     (case load_and_vectorize L f of
        Inl e \<Rightarrow> None
      | Inr (df, combined_matrix) \<Rightarrow>
          if matches df t = [] then None else Some (df ! hd (matches df t)))"

definition scores :: "lib \<Rightarrow> frame \<Rightarrow> real list list \<Rightarrow> string \<Rightarrow> real list" where
  "scores L df m t = similarities L m (hd (matches df t))"

definition candidates :: "lib \<Rightarrow> frame \<Rightarrow> real list list \<Rightarrow> string \<Rightarrow> string list \<Rightarrow> nat list" where
  "candidates L df m t filter_genres =
     filter (keep df (hd (matches df t)) filter_genres) (sorted_indices L (scores L df m t))"




text \<open>The titles and rounded similarities of a list returned, for concrete runs.\<close>

definition titles_scores :: "py_error + (string list \<times> scored list) \<Rightarrow> (cell \<times> real) list" where
  "titles_scores r =
     (case r of Inl e \<Rightarrow> [] | Inr (out, results) \<Rightarrow> map (\<lambda>x. (s_title x, similarity x)) results)"

subsection \<open>Catalogs for running the model\<close>

definition books4 :: "book list" where
  "books4 =
     [mk_book ''A'' ''a wizard walks'' ''Fantasy, Adventure'',
      mk_book ''B'' ''a hobbit walks'' ''Fantasy'',
      mk_book ''C'' ''a hobbit walks'' ''Fantasy'',
      mk_book ''D'' ''two lovers'' ''Romance'']"

definition books5 :: "book list" where
  "books5 =
     [mk_book ''E'' ''   '' ''Fantasy'',
      mk_book ''The Hobbit'' ''a hobbit walks'' ''Fantasy, Adventure'',
      mk_book ''Dune'' ''a desert planet'' ''Science Fiction, Adventure'',
      mk_book ''Emma'' ''two lovers'' ''Romance'',
      mk_book ''F'' [] ''Romance'']"


text \<open>A row of the frame and a result, written short (the rating \<^verbatim>\<open>N/A\<close> is read as missing).\<close>

definition mk_row :: "string \<Rightarrow> string \<Rightarrow> string \<Rightarrow> cell entry" where
  "mk_row t d c =
     \<lparr>title = Str t, author = Str ''anon'', description = Str d, clean_description = Str d,
      categories = Str c, rating = NaN\<rparr>"

definition mk_scored :: "string \<Rightarrow> string \<Rightarrow> string \<Rightarrow> real \<Rightarrow> scored" where
  "mk_scored t d c s =
     \<lparr>s_title = Str t, s_author = Str ''anon'', s_categories = Str c, s_rating = NaN,
      s_clean_description = Str d, similarity = s\<rparr>"

text \<open>The frame and the matrix of \<open>books5\<close> and of \<open>books4\<close>, and the records the runs use.\<close>

definition frame5 :: frame where
  "frame5 =
     [mk_row ''The Hobbit'' ''a hobbit walks'' ''Fantasy, Adventure'',
      mk_row ''Dune'' ''a desert planet'' ''Science Fiction, Adventure'',
      mk_row ''Emma'' ''two lovers'' ''Romance'']"

definition matrix5 :: "real list list" where
  "matrix5 = [[1 / 2, 1 / 2, 0, 0], [1 / 2, 0, 0, 1 / 2], [0, 0, 1 / 2, 0]]"

definition frame4 :: frame where
  "frame4 =
     [mk_row ''A'' ''a wizard walks'' ''Fantasy, Adventure'',
      mk_row ''B'' ''a hobbit walks'' ''Fantasy'',
      mk_row ''C'' ''a hobbit walks'' ''Fantasy'',
      mk_row ''D'' ''two lovers'' ''Romance'']"

definition matrix4 :: "real list list" where
  "matrix4 = [[1 / 2, 1 / 2, 0], [0, 1 / 2, 0], [0, 1 / 2, 0], [0, 0, 1 / 2]]"


definition hobbit :: book where
  "hobbit = mk_book ''The Hobbit'' ''a hobbit walks'' ''Fantasy, Adventure''"

definition blank_book :: book where
  "blank_book = mk_book ''E'' ''   '' ''Fantasy''"

definition dune :: scored where
  "dune = mk_scored ''Dune'' ''a desert planet'' ''Science Fiction, Adventure'' (1 / 4)"

definition emma :: scored where
  "emma = mk_scored ''Emma'' ''two lovers'' ''Romance'' 0"

section \<open>The catalog store: deduplication\<close>

lemma rows_of_save_to_cache:
  "rows_of (save_to_cache b f) =
     (if lower (title b) \<in> set (map (\<lambda>row. lower (title row)) (rows_of f)) then rows_of f
      else rows_of f @ [b])"
  by (cases f) (simp_all add: save_to_cache_def rows_of_def)

lemma distinct_lower_fold:
  "distinct (map (\<lambda>row. lower (title row)) (rows_of f)) \<Longrightarrow>
   distinct (map (\<lambda>row. lower (title row)) (rows_of (fold save_to_cache bs f)))"
proof (induction bs arbitrary: f)
  case Nil
  then show ?case by simp
next
  case (Cons b bs)
  have "distinct (map (\<lambda>row. lower (title row)) (rows_of (save_to_cache b f)))"
    using Cons.prems by (auto simp: rows_of_save_to_cache)
  then show ?case using Cons.IH by simp
qed

text \<open>
  What \<^verbatim>\<open>save_to_cache\<close> does keep: no two rows with the same lower-cased title.
\<close>

lemma save_all_distinct_lower:
  "distinct (map (\<lambda>row. lower (title row)) (rows_of (save_all bs None)))"
  unfolding save_all_def by (rule distinct_lower_fold) (simp add: rows_of_def)

text \<open>
  And the row kept for a lower-cased title is the first book submitted with it.
\<close>

lemma fold_save_to_cache_first:
  "r \<in> set (rows_of (fold save_to_cache bs f)) \<Longrightarrow>
   r \<in> set (rows_of f)
   \<or> (lower (title r) \<notin> set (map (\<lambda>row. lower (title row)) (rows_of f))
      \<and> find (\<lambda>b. lower (title b) = lower (title r)) bs = Some r)"
proof (induction bs arbitrary: f)
  case Nil
  then show ?case by simp
next
  case (Cons b bs)
  from Cons.prems have "r \<in> set (rows_of (fold save_to_cache bs (save_to_cache b f)))"
    by simp
  from Cons.IH [OF this] show ?case
    by (auto simp: rows_of_save_to_cache split: if_splits)
qed

lemma save_all_keeps_first:
  "r \<in> set (rows_of (save_all bs None)) \<Longrightarrow>
   find (\<lambda>b. lower (title b) = lower (title r)) bs = Some r"
  using fold_save_to_cache_first [of r bs None] by (simp add: save_all_def rows_of_def)

text \<open>
  C1. The claim: after any sequence of \<^verbatim>\<open>save_to_cache\<close> calls from an empty catalog
  no two rows have the same title up to trimming and case. Here the code is run on two
  books whose titles differ by a leading blank only: both are stored, and the two rows
  have the same trimmed, lower-cased title, the one \<^verbatim>\<open>get_cached_book\<close> compares.
\<close>

theorem save_to_cache_keeps_untrimmed_duplicate:
  "save_all [mk_book ''The Hobbit'' ''d1'' ''Fantasy'', mk_book '' The Hobbit'' ''d2'' ''Fantasy''] None
     = Some [mk_book ''The Hobbit'' ''d1'' ''Fantasy'', mk_book '' The Hobbit'' ''d2'' ''Fantasy'']
   \<and> lower (strip (title (mk_book ''The Hobbit'' ''d1'' ''Fantasy'')))
     = lower (strip (title (mk_book '' The Hobbit'' ''d2'' ''Fantasy'')))"
  by (simp add: save_all_def save_to_cache_def mk_book_def lower_def lower_char_def strip_def
      isspace_def)

section \<open>The engine: what a successful run returns\<close>

lemma bind_err_Inr_iff:
  "bind_err m k = Inr y \<longleftrightarrow> (\<exists>x. m = Inr x \<and> k x = Inr y)"
  by (cases m) (simp_all add: bind_err_def)

lemma bind_err_simps:
  "bind_err (Inl e) k = Inl e" "bind_err (Inr x) k = k x"
  by (simp_all add: bind_err_def)

lemma load_and_vectorize_Inr:
  assumes "load_and_vectorize L f = Inr (df, m)"
  shows "\<exists>df0 tm gm. read_csv L f = Inr df0
     \<and> df = map (\<lambda>r. r\<lparr>categories := fillna '''' (categories r)\<rparr>)
              (filter (\<lambda>r. usable (clean_description r)) df0)
     \<and> tfidf_fit_transform L (combined_text df) = Inr tm
     \<and> mlb_fit_transform (cat_split df) = Inr gm
     \<and> length tm = length gm
     \<and> m = map2 (@) tm (map (map (\<lambda>x. x * (1 / 2))) gm)"
  using assms
  by (auto simp: load_and_vectorize_def bind_err_Inr_iff Let_def hstack_def split: if_splits)

lemma mlb_fit_transform_length:
  "mlb_fit_transform ys = Inr gm \<Longrightarrow> length gm = length ys"
  by (auto simp: mlb_fit_transform_def split: if_splits)

lemma load_and_vectorize_length:
  assumes "load_and_vectorize L f = Inr (df, m)"
  shows "length m = length df"
proof -
  from load_and_vectorize_Inr [OF assms] obtain tm gm where
    g: "mlb_fit_transform (cat_split df) = Inr gm" and l: "length tm = length gm"
    and m: "m = map2 (@) tm (map (map (\<lambda>x. x * (1 / 2))) gm)"
    by blast
  from mlb_fit_transform_length [OF g] have "length gm = length df"
    by (simp add: cat_split_def)
  with l m show ?thesis by simp
qed

text \<open>Every row of the frame has a usable description and a filled categories cell.\<close>

lemma load_and_vectorize_rows:
  assumes "load_and_vectorize L f = Inr (df, m)" and "r \<in> set df"
  shows "usable (clean_description r) \<and> (\<exists>s. categories r = Str s)"
proof -
  from load_and_vectorize_Inr [OF assms(1)] obtain df0 where
    "df = map (\<lambda>r. r\<lparr>categories := fillna '''' (categories r)\<rparr>)
              (filter (\<lambda>r. usable (clean_description r)) df0)"
    by blast
  with assms(2) obtain r0 where "usable (clean_description r0)"
    and r: "r = r0\<lparr>categories := fillna '''' (categories r0)\<rparr>"
    by auto
  then show ?thesis by (cases "categories r0") simp_all
qed

text \<open>
  The loop, when it ends without an exception: the results so far, then the rows kept,
  in the order visited, up to the first moment the list has \<^verbatim>\<open>top_n\<close> entries. The test
  comes after the append, so at least one kept row is taken.
\<close>

lemma collect_Inr:
  "collect L df sims idx fg n js acc = Inr res \<Longrightarrow>
   res = acc @ map (make_result L df sims)
                  (take (max 1 (nat (n - int (length acc)))) (filter (keep df idx fg) js))"
proof (induction js arbitrary: acc)
  case Nil
  then show ?case by simp
next
  case (Cons i js)
  show ?case
  proof (cases "keep df idx fg i")
    case False
    with Cons.prems have "collect L df sims idx fg n js acc = Inr res"
      by (auto simp: keep_def split: if_splits sum.splits bool.splits)
    from Cons.IH [OF this] False show ?thesis by simp
  next
    case True
    then have ne: "i \<noteq> idx" and fo: "filtered_out fg (categories (df ! i)) = Inr False"
      by (simp_all add: keep_def)
    show ?thesis
    proof (cases "n \<le> int (length acc) + 1")
      case stop: True
      with Cons.prems ne fo have "res = acc @ [make_result L df sims i]"
        by (auto simp: Let_def split: if_splits)
      moreover from stop have "max 1 (nat (n - int (length acc))) = 1" by simp
      ultimately show ?thesis using True by simp
    next
      case go: False
      with Cons.prems ne fo
      have "collect L df sims idx fg n js (acc @ [make_result L df sims i]) = Inr res"
        by (auto simp: Let_def split: if_splits)
      from Cons.IH [OF this]
      have "res = acc @ make_result L df sims i #
              map (make_result L df sims)
                (take (max 1 (nat (n - int (length acc) - 1))) (filter (keep df idx fg) js))"
        by (simp add: algebra_simps)
      moreover from go have "max 1 (nat (n - int (length acc))) =
          Suc (max 1 (nat (n - int (length acc) - 1)))"
        by simp
      ultimately show ?thesis using True by simp
    qed
  qed
qed

lemma filtered_out_total:
  "fg = [] \<or> c \<noteq> NaN \<Longrightarrow> \<exists>b. filtered_out fg c = Inr b"
  by (cases c) (auto simp: filtered_out_def)

text \<open>The loop raises nothing when every index it is given is a row of the frame.\<close>

lemma collect_total:
  assumes "\<forall>i\<in>set js. i < length df \<and> i < length sims"
    and "\<forall>r\<in>set df. categories r \<noteq> NaN"
  shows "\<exists>res. collect L df sims idx fg n js acc = Inr res"
  using assms(1)
proof (induction js arbitrary: acc)
  case Nil
  then show ?case by simp
next
  case (Cons i js)
  then have i: "i < length df" "i < length sims" by simp_all
  with assms(2) have "categories (df ! i) \<noteq> NaN" by simp
  then obtain b where b: "filtered_out fg (categories (df ! i)) = Inr b"
    using filtered_out_total by blast
  from Cons have ih: "\<And>acc. \<exists>res. collect L df sims idx fg n js acc = Inr res" by simp
  show ?case using i b ih by (cases b) (simp_all add: Let_def)
qed

lemma get_similar_books_not_found:
  assumes "load_and_vectorize L f = Inr (df, m)" and "matches df t = []"
  shows "get_similar_books L t fg n f = Inr ([not_found_message t], [])"
  using assms by (simp add: get_similar_books_def bind_err_simps)

lemma get_similar_books_found:
  assumes "load_and_vectorize L f = Inr (df, m)" and "matches df t \<noteq> []"
  shows "get_similar_books L t fg n f =
     bind_err (collect L df (scores L df m t) (hd (matches df t)) fg n
                 (sorted_indices L (scores L df m t)) [])
       (\<lambda>results. Inr ([], results))"
  using assms by (simp add: get_similar_books_def bind_err_simps scores_def Let_def)

lemma get_similar_books_Inr:
  assumes "get_similar_books L t fg n f = Inr (out, res)"
    and "load_and_vectorize L f = Inr (df, m)"
  shows "if matches df t = [] then out = [not_found_message t] \<and> res = []
         else out = [] \<and>
              res = map (make_result L df (scores L df m t))
                      (take (max 1 (nat n)) (candidates L df m t fg))"
proof (cases "matches df t = []")
  case True
  with assms get_similar_books_not_found [OF assms(2) True, of fg n] show ?thesis by simp
next
  case False
  from assms(1) get_similar_books_found [OF assms(2) False, of fg n]
  obtain r where c: "collect L df (scores L df m t) (hd (matches df t)) fg n
                       (sorted_indices L (scores L df m t)) [] = Inr r"
    and r: "out = []" "res = r"
    by (auto simp: bind_err_Inr_iff)
  from collect_Inr [OF c] r False show ?thesis
    by (simp add: candidates_def)
qed

lemma get_similar_books_loaded:
  assumes "get_similar_books L t fg n f = Inr (out, res)"
  shows "\<exists>df m. load_and_vectorize L f = Inr (df, m)"
  using assms by (auto simp: get_similar_books_def bind_err_Inr_iff)

text \<open>Under numpy's contract for \<^verbatim>\<open>argsort\<close> a found seed always gives a list.\<close>

lemma sorted_indices_set:
  assumes "argsort_ok (argsort L)"
  shows "set (sorted_indices L sims) = {0..<length sims}"
  using assms by (simp add: sorted_indices_def argsort_ok_def)

lemma scores_length:
  assumes "load_and_vectorize L f = Inr (df, m)"
  shows "length (scores L df m t) = length df"
  using load_and_vectorize_length [OF assms] by (simp add: scores_def similarities_def)

lemma get_similar_books_total:
  assumes "argsort_ok (argsort L)" and "load_and_vectorize L f = Inr (df, m)"
    and "matches df t \<noteq> []"
  shows "get_similar_books L t fg n f =
     Inr ([], map (make_result L df (scores L df m t))
                (take (max 1 (nat n)) (candidates L df m t fg)))"
proof -
  have "\<forall>i\<in>set (sorted_indices L (scores L df m t)).
          i < length df \<and> i < length (scores L df m t)"
    using sorted_indices_set [OF assms(1)] scores_length [OF assms(2)] by simp
  moreover have "\<forall>r\<in>set df. categories r \<noteq> NaN"
    using load_and_vectorize_rows [OF assms(2)] by fastforce
  ultimately obtain r where "collect L df (scores L df m t) (hd (matches df t)) fg n
      (sorted_indices L (scores L df m t)) [] = Inr r"
    using collect_total by blast
  then have "get_similar_books L t fg n f = Inr ([], r)"
    using get_similar_books_found [OF assms(2,3)] by (simp add: bind_err_simps)
  from this get_similar_books_Inr [OF this assms(2)] assms(3) show ?thesis by simp
qed

text \<open>The stable argsort meets the contract.\<close>

lemma argsort_stable_ok: "argsort_ok argsort_stable"
  unfolding argsort_ok_def
proof (intro allI conjI)
  fix xs :: "real list"
  let ?zs = "zip xs [0..<length xs]"
  have s: "map snd ?zs = [0..<length xs]" by simp
  then have d: "distinct (map snd ?zs)" by (simp only: distinct_upt)
  then have "distinct (map snd (sort_key fst ?zs))"
    by (simp only: distinct_map distinct_sort set_sort)
  then show "distinct (argsort_stable xs)"
    by (simp only: argsort_stable_def)
  have "set (map snd (sort_key fst ?zs)) = set (map snd ?zs)"
    by (simp only: set_map set_sort)
  then show "set (argsort_stable xs) = {0..<length xs}"
    by (simp only: argsort_stable_def s set_upt)
  have "\<forall>p\<in>set (sort_key fst ?zs). xs ! snd p = fst p"
    by (auto simp: in_set_zip)
  then have "map (\<lambda>i. xs ! i) (map snd (sort_key fst ?zs)) = map fst (sort_key fst ?zs)"
    by simp
  then show "sorted (map (\<lambda>i. xs ! i) (argsort_stable xs))"
    unfolding argsort_stable_def by (simp only: sorted_sort_key)
qed

lemma argsort_lib0_ok: "argsort_ok (argsort lib0)"
  by (simp add: lib0_def argsort_stable_ok)

section \<open>The claims on the store and on the seed\<close>

text \<open>
  C8. The claim: with no cache file, \<^verbatim>\<open>get_cached_book\<close> returns not-found and the load
  of the catalog gives an empty sequence, neither raising. \<^verbatim>\<open>get_cached_book\<close> does
  return \<^verbatim>\<open>None\<close>; \<^verbatim>\<open>load_and_vectorize\<close> calls \<^verbatim>\<open>pd.read_csv\<close> with no test that the file
  exists, and the \<^verbatim>\<open>FileNotFoundError\<close> goes through \<^verbatim>\<open>get_similar_books\<close> to the caller.
\<close>

theorem missing_file_raises_in_load_and_vectorize:
  "get_cached_book t None = None
   \<and> load_and_vectorize L None = Inl FileNotFoundError
   \<and> get_similar_books L t fg n None = Inl FileNotFoundError"
  by (simp add: get_cached_book_def load_and_vectorize_def read_csv_def get_similar_books_def
      bind_err_simps)

text \<open>
  C2, as claimed: a seed title that matches no surviving row gives a NotFound signal
  that differs from the empty success. On the catalog A, B, C, D the unknown title and
  the title A filtered by a genre no book has both return the empty list.
\<close>

theorem not_found_returns_like_empty_success:
  "seed_row lib0 ''UnknownTitle'' (Some books4) = None
   \<and> seed_row lib0 ''A'' (Some books4) = Some (mk_row ''A'' ''a wizard walks'' ''Fantasy, Adventure'')
   \<and> returned (get_similar_books lib0 ''UnknownTitle'' [] 5 (Some books4)) = Inr []
   \<and> returned (get_similar_books lib0 ''A'' [''Horror''] 5 (Some books4)) = Inr []"
  by code_simp

text \<open>
  C2, amended: when no surviving row has the seed title, \<^verbatim>\<open>get_similar_books\<close> prints
  the line \<^verbatim>\<open>Title '...' not found in cache.\<close> and returns the empty list; when the seed is
  found it prints nothing. The list returned is the same in the two cases: they differ
  by the printed line only.
\<close>

theorem not_found_prints_and_returns_empty:
  assumes "load_and_vectorize L f = Inr (df, m)"
  shows "(matches df t = [] \<longrightarrow>
            get_similar_books L t fg n f = Inr ([not_found_message t], []))
       \<and> (matches df t \<noteq> [] \<longrightarrow>
            (\<forall>out res. get_similar_books L t fg n f = Inr (out, res) \<longrightarrow> out = []))"
proof (intro conjI impI allI)
  assume "matches df t = []"
  with assms show "get_similar_books L t fg n f = Inr ([not_found_message t], [])"
    by (rule get_similar_books_not_found)
next
  fix out res
  assume "matches df t \<noteq> []" and "get_similar_books L t fg n f = Inr (out, res)"
  with get_similar_books_Inr [OF this(2) assms] show "out = []" by simp
qed

theorem not_found_prints_and_returns_empty_witness:
  "load_and_vectorize lib0 (Some books4) = Inr (frame4, matrix4)
   \<and> get_similar_books lib0 ''UnknownTitle'' [] 5 (Some books4)
       = Inr ([not_found_message ''UnknownTitle''], [])
   \<and> get_similar_books lib0 ''A'' [''Horror''] 5 (Some books4) = Inr ([], [])"
proof -
  have l: "load_and_vectorize lib0 (Some books4) = Inr (frame4, matrix4)"
    by code_simp
  have a: "matches frame4 ''UnknownTitle'' = []"
    by code_simp
  have c: "get_similar_books lib0 ''A'' [''Horror''] 5 (Some books4) = Inr ([], [])"
    by code_simp
  from not_found_prints_and_returns_empty [OF l, of "''UnknownTitle''" "[]" 5] a
  have "get_similar_books lib0 ''UnknownTitle'' [] 5 (Some books4)
          = Inr ([not_found_message ''UnknownTitle''], [])"
    by simp
  with l c show ?thesis by simp
qed

text \<open>The seed is matched on the lower-cased title alone.\<close>

lemma matches_lower: "lower t = lower t' \<Longrightarrow> matches df t = matches df t'"
  by (simp add: matches_def)

text \<open>
  C3, as claimed: a seed title given to \<^verbatim>\<open>get_similar_books\<close> with other casing or other
  blanks around it resolves to the row the stored title resolves to. With blanks around
  it the title of a stored book is not found.
\<close>

theorem padded_seed_title_not_found:
  "seed_row lib0 ''The Hobbit'' (Some books5) = Some (frame5 ! 0)
   \<and> seed_row lib0 ''  the hobbit '' (Some books5) = None
   \<and> returned (get_similar_books lib0 ''The Hobbit'' [] 5 (Some books5)) = Inr [dune, emma]
   \<and> returned (get_similar_books lib0 ''  the hobbit '' [] 5 (Some books5)) = Inr []"
  by code_simp

text \<open>
  C3, amended: for every record of the catalog, a seed title that differs from the stored
  title by the case of its letters resolves in \<^verbatim>\<open>get_similar_books\<close> to the same row and
  gives the same list as the stored title; a title that differs by case and by blanks
  around it is resolved by \<^verbatim>\<open>get_cached_book\<close>, to the record the stored title finds.
\<close>

theorem seed_title_matched_up_to_case:
  assumes "b \<in> set (rows_of f)"
  shows "(lower t = lower (title b) \<longrightarrow>
            seed_row L t f = seed_row L (title b) f
            \<and> returned (get_similar_books L t fg n f)
              = returned (get_similar_books L (title b) fg n f))
       \<and> (lower (strip t) = lower (strip (title b)) \<longrightarrow>
            get_cached_book t f = get_cached_book (title b) f
            \<and> get_cached_book t f \<noteq> None)"
proof (intro conjI impI)
  assume e: "lower t = lower (title b)"
  show "seed_row L t f = seed_row L (title b) f"
    by (cases "load_and_vectorize L f") (auto simp: seed_row_def matches_lower [OF e])
  show "returned (get_similar_books L t fg n f)
          = returned (get_similar_books L (title b) fg n f)"
  proof (cases "load_and_vectorize L f")
    case (Inl err)
    then show ?thesis by (simp add: get_similar_books_def bind_err_simps)
  next
    case (Inr p)
    then obtain df m where l: "load_and_vectorize L f = Inr (df, m)" by (cases p) simp
    have s: "scores L df m t = scores L df m (title b)"
      by (simp add: scores_def matches_lower [OF e])
    show ?thesis
    proof (cases "matches df t = []")
      case True
      then have "matches df (title b) = []" by (simp add: matches_lower [OF e])
      with True l show ?thesis
        by (simp add: get_similar_books_not_found returned_def)
    next
      case False
      then have "matches df (title b) \<noteq> []" by (simp add: matches_lower [OF e])
      with False l show ?thesis
        by (simp add: get_similar_books_found s matches_lower [OF e])
    qed
  qed
next
  assume e: "lower (strip t) = lower (strip (title b))"
  show "get_cached_book t f = get_cached_book (title b) f"
    by (cases f) (simp_all add: get_cached_book_def e)
  from assms obtain rows where f: "f = Some rows" and b: "b \<in> set rows"
    by (cases f) (auto simp: rows_of_def)
  from b e have "\<exists>row\<in>set rows. lower (strip (title row)) = lower (strip t)"
    by auto
  then show "get_cached_book t f \<noteq> None"
    by (auto simp: get_cached_book_def f find_None_iff)
qed

theorem seed_title_matched_up_to_case_witness:
  "hobbit \<in> set (rows_of (Some books5))
   \<and> seed_row lib0 ''the hobbit'' (Some books5) = seed_row lib0 (title hobbit) (Some books5)
   \<and> returned (get_similar_books lib0 ''the hobbit'' [] 5 (Some books5))
     = returned (get_similar_books lib0 (title hobbit) [] 5 (Some books5))
   \<and> get_cached_book ''  the hobbit '' (Some books5) = get_cached_book (title hobbit) (Some books5)
   \<and> get_cached_book ''  the hobbit '' (Some books5) \<noteq> None"
proof -
  have b: "hobbit \<in> set (rows_of (Some books5))"
    by (simp add: rows_of_def books5_def hobbit_def)
  have c: "lower ''the hobbit'' = lower (title hobbit)"
    by code_simp
  have s: "lower (strip ''  the hobbit '') = lower (strip (title hobbit))"
    by code_simp
  from seed_title_matched_up_to_case [OF b, of "''the hobbit''" lib0 "[]" 5] c
    seed_title_matched_up_to_case [OF b, of "''  the hobbit ''" lib0 "[]" 5] s b
  show ?thesis by blast
qed

section \<open>The claims on the result list\<close>

text \<open>Every result of the loop is a result so far or comes from a kept row of the frame.\<close>

lemma collect_sources:
  "collect L df sims idx fg n js acc = Inr res \<Longrightarrow> x \<in> set res \<Longrightarrow>
   x \<in> set acc \<or> (\<exists>i<length df. keep df idx fg i \<and> x = make_result L df sims i)"
proof (induction js arbitrary: acc)
  case Nil
  then show ?case by simp
next
  case (Cons i js)
  show ?case
  proof (cases "keep df idx fg i")
    case False
    with Cons.prems(1) have "collect L df sims idx fg n js acc = Inr res"
      by (auto simp: keep_def split: if_splits sum.splits bool.splits)
    from Cons.IH [OF this Cons.prems(2)] show ?thesis .
  next
    case True
    then have ne: "i \<noteq> idx" and fo: "filtered_out fg (categories (df ! i)) = Inr False"
      by (simp_all add: keep_def)
    from Cons.prems(1) ne have i: "i < length df"
      by (auto split: if_splits)
    show ?thesis
    proof (cases "n \<le> int (length acc) + 1")
      case stop: True
      with Cons.prems(1) ne fo have "res = acc @ [make_result L df sims i]"
        by (auto simp: Let_def split: if_splits)
      with Cons.prems(2) i True show ?thesis by auto
    next
      case go: False
      with Cons.prems(1) ne fo
      have "collect L df sims idx fg n js (acc @ [make_result L df sims i]) = Inr res"
        by (auto simp: Let_def split: if_splits)
      from Cons.IH [OF this Cons.prems(2)] i True show ?thesis by auto
    qed
  qed
qed

lemma get_similar_books_sources:
  assumes "get_similar_books L t fg n f = Inr (out, res)" and "x \<in> set res"
  shows "\<exists>df m i. load_and_vectorize L f = Inr (df, m) \<and> i < length df
           \<and> keep df (hd (matches df t)) fg i
           \<and> x = make_result L df (scores L df m t) i"
proof -
  from get_similar_books_loaded [OF assms(1)] obtain df m where
    l: "load_and_vectorize L f = Inr (df, m)" by blast
  from get_similar_books_Inr [OF assms(1) l] assms(2) have found: "matches df t \<noteq> []"
    by (auto split: if_splits)
  from assms(1) get_similar_books_found [OF l found, of fg n]
  have "collect L df (scores L df m t) (hd (matches df t)) fg n
          (sorted_indices L (scores L df m t)) [] = Inr res"
    by (auto simp: bind_err_Inr_iff)
  from collect_sources [OF this assms(2)] l show ?thesis by auto
qed

lemma seed_row_Some:
  assumes "seed_row L t f = Some r"
  shows "\<exists>df m. load_and_vectorize L f = Inr (df, m) \<and> r \<in> set df"
proof (cases "load_and_vectorize L f")
  case (Inl e)
  with assms show ?thesis by (simp add: seed_row_def)
next
  case (Inr p)
  then obtain df m where l: "load_and_vectorize L f = Inr (df, m)" by (cases p) simp
  with assms have ne: "matches df t \<noteq> []" and r: "r = df ! hd (matches df t)"
    by (auto simp: seed_row_def split: if_splits)
  from ne have "hd (matches df t) \<in> set (matches df t)" by simp
  then have "hd (matches df t) < length df" by (simp add: matches_def)
  with r l show ?thesis by simp
qed

lemma usable_iff: "usable c \<longleftrightarrow> (\<exists>s. c = Str s \<and> strip s \<noteq> [])"
  by (cases c) (simp_all add: usable_def)

text \<open>
  C5. A record of the catalog whose \<^verbatim>\<open>clean_description\<close> is read as missing, or is
  empty once trimmed, is never the seed row and is in no result list, wherever it sits
  in the catalog: the seed row and every result carry another description than it.
\<close>

theorem unusable_description_never_seed_nor_result:
  assumes "b \<in> set (rows_of f)"
    and "isna L (clean_description b) \<or> strip (clean_description b) = []"
  shows "(\<forall>r. seed_row L t f = Some r \<longrightarrow>
              clean_description r \<noteq> clean_description (read_row L b))
       \<and> (\<forall>out res. get_similar_books L t fg n f = Inr (out, res) \<longrightarrow>
              (\<forall>x\<in>set res. s_clean_description x \<noteq> clean_description (read_row L b)))"
proof -
  from assms(2) have nu: "\<not> usable (clean_description (read_row L b))"
    by (auto simp: read_row_def to_cell_def usable_iff)
  show ?thesis
  proof (intro conjI allI impI ballI)
    fix r
    assume "seed_row L t f = Some r"
    from seed_row_Some [OF this] obtain df m where
      "load_and_vectorize L f = Inr (df, m)" and "r \<in> set df" by blast
    from load_and_vectorize_rows [OF this] nu
    show "clean_description r \<noteq> clean_description (read_row L b)" by auto
  next
    fix out res x
    assume "get_similar_books L t fg n f = Inr (out, res)" and "x \<in> set res"
    from get_similar_books_sources [OF this] obtain df m i where
      l: "load_and_vectorize L f = Inr (df, m)" and i: "i < length df"
      and x: "x = make_result L df (scores L df m t) i" by blast
    from i have "df ! i \<in> set df" by simp
    from load_and_vectorize_rows [OF l this] have "usable (clean_description (df ! i))" by simp
    with x nu show "s_clean_description x \<noteq> clean_description (read_row L b)"
      by (auto simp: make_result_def)
  qed
qed

theorem unusable_description_never_seed_nor_result_witness:
  "blank_book \<in> set (rows_of (Some books5))
   \<and> strip (clean_description blank_book) = []
   \<and> seed_row lib0 (title blank_book) (Some books5) = None
   \<and> get_similar_books lib0 ''the hobbit'' [] 5 (Some books5) = Inr ([], [dune, emma])
   \<and> s_clean_description dune \<noteq> clean_description (read_row lib0 blank_book)
   \<and> s_clean_description emma \<noteq> clean_description (read_row lib0 blank_book)"
proof -
  have b: "blank_book \<in> set (rows_of (Some books5))"
    by (simp add: rows_of_def books5_def blank_book_def)
  have s: "strip (clean_description blank_book) = []"
    by code_simp
  have e: "seed_row lib0 (title blank_book) (Some books5) = None"
    by code_simp
  have g: "get_similar_books lib0 ''the hobbit'' [] 5 (Some books5) = Inr ([], [dune, emma])"
    by code_simp
  from unusable_description_never_seed_nor_result [OF b, of lib0 "''the hobbit''" "[]" 5] s g
  have "\<forall>x\<in>set [dune, emma].
          s_clean_description x \<noteq> clean_description (read_row lib0 blank_book)"
    by blast
  with b s e g show ?thesis by simp
qed

text \<open>
  C6. With a non-empty \<^verbatim>\<open>filter_genres\<close>, every result has a categories string one of
  whose labels (split on comma, trimmed, lower-cased) is the lower-cased form of a filter
  entry.
\<close>

theorem results_share_a_filter_category:
  assumes "fg \<noteq> []" and "get_similar_books L t fg n f = Inr (out, res)" and "x \<in> set res"
  shows "\<exists>s. s_categories x = Str s \<and> (\<exists>g\<in>set fg. lower g \<in> set (book_cats s))"
proof -
  from get_similar_books_sources [OF assms(2,3)] obtain df m i where
    k: "keep df (hd (matches df t)) fg i" and x: "x = make_result L df (scores L df m t) i"
    by blast
  from k assms(1) obtain s where s: "categories (df ! i) = Str s"
    and "list_ex (\<lambda>g. lower g \<in> set (book_cats s)) fg"
    by (cases "categories (df ! i)") (auto simp: keep_def filtered_out_def)
  then have "\<exists>g\<in>set fg. lower g \<in> set (book_cats s)"
    by (simp add: list_ex_iff)
  with s x show ?thesis by (simp add: make_result_def)
qed

theorem results_share_a_filter_category_witness:
  "get_similar_books lib0 ''the hobbit'' [''ADVENTURE''] 5 (Some books5) = Inr ([], [dune])
   \<and> s_categories dune = Str ''Science Fiction, Adventure''
   \<and> lower ''ADVENTURE'' \<in> set (book_cats ''Science Fiction, Adventure'')"
proof -
  have n: "[''ADVENTURE''] \<noteq> []" by simp
  have g: "get_similar_books lib0 ''the hobbit'' [''ADVENTURE''] 5 (Some books5) = Inr ([], [dune])"
    by code_simp
  have x: "dune \<in> set [dune]" by simp
  have c: "s_categories dune = Str ''Science Fiction, Adventure''"
    by (simp add: dune_def mk_scored_def)
  from results_share_a_filter_category [OF n g x] c
  have "lower ''ADVENTURE'' \<in> set (book_cats ''Science Fiction, Adventure'')"
    by simp
  with g c show ?thesis by simp
qed

text \<open>
  C7. With \<^verbatim>\<open>top_n\<close> at least 1 the list returned has at most \<^verbatim>\<open>top_n\<close> entries. When the
  seed is found the call ends with a list, not an exception, however few candidates
  there are: the list has \<^verbatim>\<open>top_n\<close> entries or all the candidates, whichever is less.
\<close>

theorem at_most_top_n_results:
  assumes "1 \<le> n"
  shows "(\<forall>out res. get_similar_books L t fg n f = Inr (out, res) \<longrightarrow> int (length res) \<le> n)
       \<and> (argsort_ok (argsort L) \<and> load_and_vectorize L f = Inr (df, m) \<and> matches df t \<noteq> [] \<longrightarrow>
            (\<exists>res. get_similar_books L t fg n f = Inr ([], res)
                \<and> length res = min (nat n) (length (candidates L df m t fg))))"
proof (intro conjI allI impI)
  fix out res
  assume g: "get_similar_books L t fg n f = Inr (out, res)"
  from get_similar_books_loaded [OF g] obtain df' m' where
    "load_and_vectorize L f = Inr (df', m')" by blast
  from get_similar_books_Inr [OF g this] have "length res \<le> max 1 (nat n)"
    by (auto split: if_splits)
  with assms show "int (length res) \<le> n" by simp
next
  assume "argsort_ok (argsort L) \<and> load_and_vectorize L f = Inr (df, m) \<and> matches df t \<noteq> []"
  then have "get_similar_books L t fg n f =
     Inr ([], map (make_result L df (scores L df m t))
                (take (max 1 (nat n)) (candidates L df m t fg)))"
    by (simp add: get_similar_books_total)
  moreover from assms have "max 1 (nat n) = nat n" by simp
  ultimately show "\<exists>res. get_similar_books L t fg n f = Inr ([], res)
                \<and> length res = min (nat n) (length (candidates L df m t fg))"
    by (simp add: min.commute)
qed

theorem at_most_top_n_results_witness:
  "get_similar_books lib0 ''the hobbit'' [] 1 (Some books5) = Inr ([], [dune])
   \<and> int (length [dune]) \<le> 1
   \<and> (\<exists>res. get_similar_books lib0 ''the hobbit'' [''romance''] 5 (Some books5) = Inr ([], res)
          \<and> length res = 1)"
proof -
  have one: "(1::int) \<le> 1" and five: "(1::int) \<le> 5" by simp_all
  have g: "get_similar_books lib0 ''the hobbit'' [] 1 (Some books5) = Inr ([], [dune])"
    by code_simp
  have l: "load_and_vectorize lib0 (Some books5) = Inr (frame5, matrix5)"
    by code_simp
  have f: "matches frame5 ''the hobbit'' \<noteq> []"
    by code_simp
  have c: "length (candidates lib0 frame5 matrix5 ''the hobbit'' [''romance'']) = 1"
    by code_simp
  from at_most_top_n_results [OF one, of lib0 "''the hobbit''" "[]" "Some books5"] g
  have a: "int (length [dune]) \<le> 1"
    by blast
  from at_most_top_n_results [OF five, of lib0 "''the hobbit''" "[''romance'']" "Some books5"
      frame5 matrix5] argsort_lib0_ok l f c
  have "\<exists>res. get_similar_books lib0 ''the hobbit'' [''romance''] 5 (Some books5) = Inr ([], res)
          \<and> length res = 1"
    by simp
  with g a show ?thesis by blast
qed

text \<open>
  C10. The bound is tested after the append: with \<^verbatim>\<open>top_n\<close> zero or negative, a found seed
  and at least one row that is not the seed and passes the filter, the call returns
  exactly one result, more than \<^verbatim>\<open>top_n\<close>.
\<close>

theorem nonpositive_top_n_gives_one_result:
  assumes "n \<le> 0" and "argsort_ok (argsort L)" and "load_and_vectorize L f = Inr (df, m)"
    and "matches df t \<noteq> []" and "\<exists>i<length df. keep df (hd (matches df t)) fg i"
  shows "\<exists>x. get_similar_books L t fg n f = Inr ([], [x]) \<and> n < int (length [x])"
proof -
  from assms(5) obtain i where "i < length df" and "keep df (hd (matches df t)) fg i"
    by blast
  then have "i \<in> set (candidates L df m t fg)"
    using sorted_indices_set [OF assms(2)] scores_length [OF assms(3)]
    by (simp add: candidates_def)
  then obtain c cs where c: "candidates L df m t fg = c # cs"
    by (cases "candidates L df m t fg") auto
  from assms(1) have "max 1 (nat n) = 1" by simp
  with get_similar_books_total [OF assms(2,3,4), of fg n] c
  have "get_similar_books L t fg n f = Inr ([], [make_result L df (scores L df m t) c])"
    by simp
  with assms(1) show ?thesis by simp
qed

theorem nonpositive_top_n_gives_one_result_witness:
  "get_similar_books lib0 ''the hobbit'' [] 0 (Some books5) = Inr ([], [dune])
   \<and> (\<exists>x. get_similar_books lib0 ''the hobbit'' [] (- 3) (Some books5) = Inr ([], [x]))"
proof -
  have n: "(- 3 :: int) \<le> 0" by simp
  have l: "load_and_vectorize lib0 (Some books5) = Inr (frame5, matrix5)"
    by code_simp
  have f: "matches frame5 ''the hobbit'' \<noteq> []"
    by code_simp
  have "1 < length frame5 \<and> keep frame5 (hd (matches frame5 ''the hobbit'')) [] 1"
    by code_simp
  then have k: "\<exists>i<length frame5. keep frame5 (hd (matches frame5 ''the hobbit'')) [] i"
    by blast
  have g: "get_similar_books lib0 ''the hobbit'' [] 0 (Some books5) = Inr ([], [dune])"
    by code_simp
  from nonpositive_top_n_gives_one_result [OF n argsort_lib0_ok l f k] g
  show ?thesis by blast
qed

section \<open>The claims on the order of the candidates and on the category channel\<close>

lemma sorted_indices_descending:
  assumes "argsort_ok (argsort L)"
  shows "sorted_wrt (\<lambda>i j. sims ! j \<le> sims ! i) (sorted_indices L sims)"
proof -
  from assms have "sorted (map (\<lambda>i. sims ! i) (argsort L sims))"
    by (simp add: argsort_ok_def)
  then have "sorted_wrt (\<lambda>i j. sims ! i \<le> sims ! j) (argsort L sims)"
    by (simp add: sorted_map)
  then show ?thesis
    by (simp add: sorted_indices_def sorted_wrt_rev)
qed

lemma candidates_descending:
  assumes "argsort_ok (argsort L)"
  shows "sorted_wrt (\<lambda>i j. scores L df m t ! j \<le> scores L df m t ! i)
           (take k (candidates L df m t fg))"
  unfolding candidates_def
  by (intro sorted_wrt_take sorted_wrt_filter sorted_indices_descending [OF assms])

text \<open>
  C4, as claimed: the candidates come by descending similarity and rows of equal
  similarity keep the order they have in the frame. The code reverses an ascending
  \<^verbatim>\<open>argsort\<close>. With the stable ascending argsort, which meets numpy's contract, the rows B
  and C, second and third of the frame and of equal similarity to the seed A, come out as
  C then B.
\<close>

theorem equal_scores_come_out_reversed:
  "argsort_ok (argsort lib0)
   \<and> load_and_vectorize lib0 (Some books4) = Inr (frame4, matrix4)
   \<and> scores lib0 frame4 matrix4 ''A'' = [1, 1 / 2, 1 / 2, 0]
   \<and> titles_scores (get_similar_books lib0 ''A'' [] 5 (Some books4))
     = [(Str ''C'', 1 / 2), (Str ''B'', 1 / 2), (Str ''D'', 0)]"
proof (intro conjI)
  show "argsort_ok (argsort lib0)"
    by (rule argsort_lib0_ok)
  show "load_and_vectorize lib0 (Some books4) = Inr (frame4, matrix4)"
    by code_simp
  show "scores lib0 frame4 matrix4 ''A'' = [1, 1 / 2, 1 / 2, 0]"
    by code_simp
  show "titles_scores (get_similar_books lib0 ''A'' [] 5 (Some books4))
     = [(Str ''C'', 1 / 2), (Str ''B'', 1 / 2), (Str ''D'', 0)]"
    by code_simp
qed

text \<open>
  C4, amended: the results are rows of the frame taken in an order of non-increasing
  cosine similarity to the seed, no row twice. Nothing is said of the order of rows of
  equal similarity: it is the one numpy's default \<^verbatim>\<open>argsort\<close> gives them, reversed.
\<close>

theorem results_by_descending_similarity:
  assumes "argsort_ok (argsort L)" and "load_and_vectorize L f = Inr (df, m)"
    and "get_similar_books L t fg n f = Inr (out, res)"
  shows "\<exists>js. res = map (make_result L df (scores L df m t)) js
            \<and> sorted_wrt (\<lambda>i j. scores L df m t ! j \<le> scores L df m t ! i) js
            \<and> distinct js"
proof (cases "matches df t = []")
  case True
  with get_similar_books_Inr [OF assms(3,2)] have "res = []" by simp
  then show ?thesis by (intro exI [of _ "[]"]) simp
next
  case False
  let ?js = "take (max 1 (nat n)) (candidates L df m t fg)"
  from False get_similar_books_Inr [OF assms(3,2)]
  have "res = map (make_result L df (scores L df m t)) ?js" by simp
  moreover have "sorted_wrt (\<lambda>i j. scores L df m t ! j \<le> scores L df m t ! i) ?js"
    by (rule candidates_descending [OF assms(1)])
  moreover have "distinct (sorted_indices L (scores L df m t))"
    using assms(1) by (simp add: sorted_indices_def argsort_ok_def)
  then have "distinct ?js"
    by (simp add: candidates_def)
  ultimately show ?thesis by blast
qed

theorem results_by_descending_similarity_witness:
  "\<exists>js. [dune, emma] = map (make_result lib0 frame5 [1, 1 / 4, 0]) js
      \<and> sorted_wrt (\<lambda>i j. [1, 1 / 4, 0 :: real] ! j \<le> [1, 1 / 4, 0] ! i) js
      \<and> distinct js"
proof -
  have l: "load_and_vectorize lib0 (Some books5) = Inr (frame5, matrix5)"
    by code_simp
  have g: "get_similar_books lib0 ''the hobbit'' [] 5 (Some books5) = Inr ([], [dune, emma])"
    by code_simp
  have s: "scores lib0 frame5 matrix5 ''the hobbit'' = [1, 1 / 4, 0]"
    by code_simp
  from results_by_descending_similarity [OF argsort_lib0_ok l g]
  show ?thesis unfolding s .
qed










end
